theory Spec2Isabelle
  imports Main "HOL-Library.Word" "HOL-Library.Signed_Division"
begin

unbundle bit_operations_syntax

section \<open>Machine model\<close>

text \<open>
  The driver targets the GameCube/Wii, a 32-bit PowerPC. The embedding follows that
  data model: \<open>int\<close> and \<open>long\<close> are 32 bits wide, so the driver's \<open>u32\<close>
  (\<open>unsigned long\<close>) is a \<open>32 word\<close>, \<open>u16\<close> a \<open>16 word\<close> and \<open>u8\<close> an
  \<open>8 word\<close>. An \<open>int\<close> is held in a \<open>32 word\<close> too, its value being \<open>sint\<close> of
  the word. Whether plain \<open>char\<close> is signed is left to the C implementation
  (unsigned under the PowerPC ABI, signed on most others); the functions that cast
  to \<open>char\<close> take that choice as the parameter \<open>sc\<close> (\<open>True\<close>: plain char is signed).
\<close>

type_synonym u8 = "8 word"
type_synonym u16 = "16 word"
type_synonym u32 = "32 word"
type_synonym s16 = "16 word"

section \<open>Conversion coefficients\<close>

text \<open>
  \<open>#define Yr ((int)( 0.299*(1<<RGB2YUV_SHIFT)))\<close> and its eight siblings. The cast
  truncates towards zero. Scaling by \<open>2^16\<close> is exact in binary floating point,
  \<open>0.500\<close> is represented exactly, and every other product lies more than a tenth
  away from the nearest integer, so each constant is the truncation of the decimal
  fraction times \<open>65536\<close>.
\<close>

definition RGB2YUV_SHIFT :: nat where "RGB2YUV_SHIFT = 16"
definition RGB2YUV_LUMA :: int where "RGB2YUV_LUMA = 16"
definition RGB2YUV_CHROMA :: int where "RGB2YUV_CHROMA = 128"

definition Yr :: int where "Yr = (299 * 2 ^ RGB2YUV_SHIFT) div 1000"
definition Yg :: int where "Yg = (587 * 2 ^ RGB2YUV_SHIFT) div 1000"
definition Yb :: int where "Yb = (114 * 2 ^ RGB2YUV_SHIFT) div 1000"

definition Ur :: int where "Ur = - ((169 * 2 ^ RGB2YUV_SHIFT) div 1000)"
definition Ug :: int where "Ug = - ((331 * 2 ^ RGB2YUV_SHIFT) div 1000)"
definition Ub :: int where "Ub = (500 * 2 ^ RGB2YUV_SHIFT) div 1000"

definition Vr :: int where "Vr = (500 * 2 ^ RGB2YUV_SHIFT) div 1000"
definition Vg :: int where "Vg = - ((419 * 2 ^ RGB2YUV_SHIFT) div 1000)"
definition Vb :: int where "Vb = - ((81 * 2 ^ RGB2YUV_SHIFT) div 1000)"

text \<open>\<open>#define clamp(x, y, z) ((z < x) ? x : ((z > y) ? y : z))\<close>, used on \<open>u32\<close>
  operands, so both comparisons are unsigned.\<close>

definition clamp :: "u32 \<Rightarrow> u32 \<Rightarrow> u32 \<Rightarrow> u32" where
  "clamp x y z = (if z < x then x else if z > y then y else z)"

section \<open>Lookup tables\<close>

text \<open>
  The static arrays of the driver. \<open>r_Vr\<close> is not an array of its own:
  \<open>#define r_Vr b_Ub\<close> makes it a second name of \<open>b_Ub\<close>. The source's
  \<open>g_Yg_\<close>, \<open>g_Ug_\<close> and \<open>g_Vg_\<close> lose their trailing underscore, which a
  constant's name cannot end with.
\<close>

record tables =
  r_Yr :: "u32 list"
  g_Yg :: "u32 list"
  b_Yb :: "u32 list"
  r_Ur :: "u32 list"
  g_Ug :: "u32 list"
  b_Ub :: "u32 list"
  g_Vg :: "u32 list"
  b_Vb :: "u32 list"
  RGB16toY :: "u8 list"
  RGB16toU :: "u8 list"
  RGB16toV :: "u8 list"

abbreviation r_Vr :: "tables \<Rightarrow> u32 list" where
  "r_Vr \<equiv> b_Ub"

text \<open>Static storage starts zeroed: nine arrays of 256 entries (eight distinct ones)
  and three of \<open>1 << 16\<close> entries.\<close>

definition zero_tables :: tables where
  "zero_tables =
     \<lparr> r_Yr = replicate 256 0, g_Yg = replicate 256 0, b_Yb = replicate 256 0,
       r_Ur = replicate 256 0, g_Ug = replicate 256 0, b_Ub = replicate 256 0,
       g_Vg = replicate 256 0, b_Vb = replicate 256 0,
       RGB16toY = replicate 65536 0, RGB16toU = replicate 65536 0,
       RGB16toV = replicate 65536 0 \<rparr>"

text \<open>The array sizes, which no assignment changes.\<close>

definition sized :: "tables \<Rightarrow> bool" where
  "sized T \<longleftrightarrow>
     length (r_Yr T) = 256 \<and> length (g_Yg T) = 256 \<and> length (b_Yb T) = 256 \<and>
     length (r_Ur T) = 256 \<and> length (g_Ug T) = 256 \<and> length (b_Ub T) = 256 \<and>
     length (g_Vg T) = 256 \<and> length (b_Vb T) = 256 \<and>
     length (RGB16toY T) = 65536 \<and> length (RGB16toU T) = 65536 \<and>
     length (RGB16toV T) = 65536"

subsection \<open>initRGB2YUVTables\<close>

text \<open>
  Body of the first loop, \<open>for (i = 0; i < 256; i++)\<close>. The products are computed
  in \<open>int\<close> (no overflow: the factors stay below \<open>2^16\<close> and \<open>2^8\<close>) and converted
  to \<open>u32\<close> on assignment, which wraps the negative ones. The assignments to
  \<open>b_Ub[i]\<close> and \<open>r_Vr[i]\<close> hit the same cell, in that order.
\<close>

definition init_step1 :: "nat \<Rightarrow> tables \<Rightarrow> tables" where
  "init_step1 i T =
     T\<lparr> r_Yr := (r_Yr T)[i := word_of_int (Yr * int i)],
        g_Yg := (g_Yg T)[i := word_of_int (Yg * int i + push_bit RGB2YUV_SHIFT RGB2YUV_LUMA)],
        b_Yb := (b_Yb T)[i := word_of_int (Yb * int i)],
        r_Ur := (r_Ur T)[i := word_of_int (Ur * int i)],
        g_Ug := (g_Ug T)[i := word_of_int (Ug * int i + push_bit RGB2YUV_SHIFT RGB2YUV_CHROMA)],
        b_Ub := ((b_Ub T)[i := word_of_int (Ub * int i)])[i := word_of_int (Vr * int i)],
        g_Vg := (g_Vg T)[i := word_of_int (Vg * int i + push_bit RGB2YUV_SHIFT RGB2YUV_CHROMA)],
        b_Vb := (b_Vb T)[i := word_of_int (Vb * int i)] \<rparr>"

text \<open>
  The second loop first takes the three RGB565 fields out of the index,
  \<open>r = ((i >> 11) & 0x1f); g = ((i >> 5) & 0x3f); b = ((i >> 0) & 0x1f);\<close>
\<close>

definition rgb565_r :: "u32 \<Rightarrow> u32" where
  "rgb565_r i = drop_bit 11 i AND 0x1f"

definition rgb565_g :: "u32 \<Rightarrow> u32" where
  "rgb565_g i = drop_bit 5 i AND 0x3f"

definition rgb565_b :: "u32 \<Rightarrow> u32" where
  "rgb565_b i = drop_bit 0 i AND 0x1f"

text \<open>
  and then widens each to eight bits, the "fast (approximated) scaling":
  \<open>r = (r << 3) | (r >> 2); g = (g << 2) | (g >> 4); b = (b << 3) | (b >> 2);\<close>
\<close>

definition scale5 :: "u32 \<Rightarrow> u32" where
  "scale5 c = push_bit 3 c OR drop_bit 2 c"

definition scale6 :: "u32 \<Rightarrow> u32" where
  "scale6 c = push_bit 2 c OR drop_bit 4 c"

text \<open>
  The three sums of the loop body, \<open>r_Yr[r] + g_Yg_[g] + b_Yb[b]\<close> and its chroma
  siblings: \<open>u32\<close> additions, which wrap.
\<close>

definition luma_sum :: "tables \<Rightarrow> nat \<Rightarrow> u32" where
  "luma_sum T i =
     (let r = unat (scale5 (rgb565_r (of_nat i)));
          g = unat (scale6 (rgb565_g (of_nat i)));
          b = unat (scale5 (rgb565_b (of_nat i)))
      in r_Yr T ! r + g_Yg T ! g + b_Yb T ! b)"

definition cb_sum :: "tables \<Rightarrow> nat \<Rightarrow> u32" where
  "cb_sum T i =
     (let r = unat (scale5 (rgb565_r (of_nat i)));
          g = unat (scale6 (rgb565_g (of_nat i)));
          b = unat (scale5 (rgb565_b (of_nat i)))
      in r_Ur T ! r + g_Ug T ! g + b_Ub T ! b)"

definition cr_sum :: "tables \<Rightarrow> nat \<Rightarrow> u32" where
  "cr_sum T i =
     (let r = unat (scale5 (rgb565_r (of_nat i)));
          g = unat (scale6 (rgb565_g (of_nat i)));
          b = unat (scale5 (rgb565_b (of_nat i)))
      in r_Vr T ! r + g_Vg T ! g + b_Vb T ! b)"

text \<open>
  Body of the second loop, \<open>for (i = 0; i < 1 << 16; i++)\<close>. The shift is logical
  (the operand is unsigned), and the clamped value is narrowed to \<open>u8\<close> by the
  assignment.
\<close>

definition init_step2 :: "nat \<Rightarrow> tables \<Rightarrow> tables" where
  "init_step2 i T =
     T\<lparr> RGB16toY := (RGB16toY T)[i := ucast (clamp 16 235 (drop_bit RGB2YUV_SHIFT (luma_sum T i)))],
        RGB16toU := (RGB16toU T)[i := ucast (clamp 16 240 (drop_bit RGB2YUV_SHIFT (cb_sum T i)))],
        RGB16toV := (RGB16toV T)[i := ucast (clamp 16 240 (drop_bit RGB2YUV_SHIFT (cr_sum T i)))] \<rparr>"

definition initRGB2YUVTables :: "tables \<Rightarrow> tables" where
  "initRGB2YUVTables T = fold init_step2 [0..<65536] (fold init_step1 [0..<256] T)"

section \<open>The conversion kernel\<close>

text \<open>
  \<open>(char)Y1\<close> of an \<open>int\<close>, promoted back to \<open>int\<close> for the shift: the low eight
  bits, zero-extended where plain char is unsigned and sign-extended where it is
  signed.
\<close>

definition char_cast :: "bool \<Rightarrow> u32 \<Rightarrow> u32" where
  "char_cast sc x = (if sc then scast (ucast x :: u8) else ucast (ucast x :: u8))"

text \<open>
  The "mean of r,g,b" expression of the general case, for RGB565. The operands are
  promoted to \<open>int\<close>; the assignment to the \<open>u16\<close> variable \<open>rgb\<close> keeps the low
  sixteen bits.
\<close>

definition rgb_mean :: "u16 \<Rightarrow> u16 \<Rightarrow> u16" where
  "rgb_mean rgb1 rgb2 =
     ucast (((drop_bit 1 (ucast rgb1 :: u32) AND NOT 0x8410)
             + (drop_bit 1 (ucast rgb2 :: u32) AND NOT 0x8410))
            + ((ucast rgb1 AND ucast rgb2) AND 0x0841))"

text \<open>The return expression: four casts, four shifts, three ORs. The shifts and the
  conversion of the result to \<open>u32\<close> keep the low 32 bits.\<close>

definition pack :: "bool \<Rightarrow> u32 \<Rightarrow> u32 \<Rightarrow> u32 \<Rightarrow> u32 \<Rightarrow> u32" where
  "pack sc Y1 Cb Y2 Cr =
     push_bit 24 (char_cast sc Y1) OR push_bit 16 (char_cast sc Cb)
       OR push_bit 8 (char_cast sc Y2) OR push_bit 0 (char_cast sc Cr)"

text \<open>Everything below the zero test: the two table-driven branches and the
  return expression.\<close>

definition table_path :: "bool \<Rightarrow> tables \<Rightarrow> u16 \<Rightarrow> u16 \<Rightarrow> u32" where
  "table_path sc T rgb1 rgb2 =
     (if rgb1 = rgb2 then
        pack sc (ucast (RGB16toY T ! unat rgb1)) (ucast (RGB16toU T ! unat rgb1))
                (ucast (RGB16toY T ! unat rgb1)) (ucast (RGB16toV T ! unat rgb1))
      else
        (let rgb = rgb_mean rgb1 rgb2 in
         pack sc (ucast (RGB16toY T ! unat rgb1)) (ucast (RGB16toU T ! unat rgb))
                 (ucast (RGB16toY T ! unat rgb2)) (ucast (RGB16toV T ! unat rgb))))"

definition rgbrgb16toyuy2 :: "bool \<Rightarrow> tables \<Rightarrow> u16 \<Rightarrow> u16 \<Rightarrow> u32" where
  "rgbrgb16toyuy2 sc T rgb1 rgb2 =
     (if rgb1 OR rgb2 = 0 then 0x00800080 else table_path sc T rgb1 rgb2)"

text \<open>Byte \<open>k\<close> of a packed macropixel, byte 0 being the least significant.\<close>

definition byte_of :: "nat \<Rightarrow> u32 \<Rightarrow> u8" where
  "byte_of k w = ucast (drop_bit (8 * k) w)"

section \<open>Driver state and the two surfaces\<close>

text \<open>
  \<open>CUBERec\<close>, the driver's private record, with the fields the refresh path reads or
  writes; the remaining ones (\<open>SST_Index\<close>, \<open>CloseScreen\<close>, \<open>OnAtExit\<close>,
  \<open>CubeInitiated\<close>, \<open>pEnt\<close>, \<open>Options\<close>, \<open>mapped_offset\<close>, \<open>console_fd\<close>) live
  in the record's extension slot, so every statement below holds whatever they are.

  The two buffers are separate objects (one from \<open>xnfalloc\<close>, one from \<open>mmap\<close>) and
  are modelled at the granularity the refresh path uses: \<open>ShadowPtr\<close> as the list of
  its 16-bit pixels, \<open>mapped_mem\<close> as the list of its 32-bit words, so that
  \<open>mapped_memlen\<close> is four times the length of that list. A \<open>u32 *\<close> into either
  buffer is the index of a 32-bit word, counted from the buffer's start; word \<open>k\<close> of
  the shadow surface holds pixels \<open>2k\<close> and \<open>2k + 1\<close>.
\<close>

record CUBERec =
  ShadowPtr :: "u16 list"
  ShadowPitch :: u32
  Blanked :: bool
  mapped_mem :: "u32 list"

text \<open>The X server's \<open>BoxRec\<close>: four \<open>short\<close> coordinates, each a 16-bit word
  that is read as two's complement (\<open>sint\<close>, \<open>scast\<close>).\<close>

record BoxRec =
  x1 :: s16
  y1 :: s16
  x2 :: s16
  y2 :: s16

text \<open>
  C leaves the following undefined; the model stops with a fault instead.
  \<^item> \<open>OutOfBounds\<close>: a read of the shadow surface or a write of the output surface
    outside the buffer.
  \<^item> \<open>NegativeCount\<close>: a \<open>while (n--)\<close> loop entered with a negative counter, which
    counts down until the counter overflows.
  \<^item> \<open>Misaligned\<close>: a start offset that is not a multiple of four bytes. The hardware
    would perform the access, but the word-granular surfaces cannot express it;
    \<open>CUBEScreenInit\<close> rounds \<open>ShadowPitch\<close> up to a multiple of four, which excludes it.
\<close>

datatype fault = OutOfBounds | NegativeCount | Misaligned

section \<open>CUBERefreshArea\<close>

text \<open>
  One step of the innermost loop reads the two pixels of a shadow word,
  \<open>rgb = (u16 *) src32; ... rgbrgb16toyuy2(rgb[0], rgb[1])\<close>.
\<close>

definition macropixel :: "bool \<Rightarrow> tables \<Rightarrow> u16 list \<Rightarrow> int \<Rightarrow> u32" where
  "macropixel sc T sh src32 = rgbrgb16toyuy2 sc T (sh ! nat (2 * src32)) (sh ! nat (2 * src32 + 1))"

text \<open>
  The innermost loop, \<open>i = width / 2; while (i--) { rgb = (u16 *) src32;
  *dst32++ = rgbrgb16toyuy2(rgb[0], rgb[1]); src32++; }\<close>, with the remaining count
  as the recursion argument. It returns both pointers and the output surface.
\<close>

fun pair_loop ::
  "bool \<Rightarrow> tables \<Rightarrow> u16 list \<Rightarrow> nat \<Rightarrow> int \<Rightarrow> int \<Rightarrow> u32 list
     \<Rightarrow> fault + (int \<times> int \<times> u32 list)" where
  "pair_loop sc T sh 0 src32 dst32 out = Inr (src32, dst32, out)"
| "pair_loop sc T sh (Suc i) src32 dst32 out =
     (if src32 < 0 \<or> int (length sh) < 2 * src32 + 2 \<or> dst32 < 0 \<or> int (length out) \<le> dst32
      then Inl OutOfBounds
      else pair_loop sc T sh i (src32 + 1) (dst32 + 1)
             (out[nat dst32 := macropixel sc T sh src32]))"

text \<open>
  The row loop, \<open>while (height--) { ...; dst32 += mod32; src32 += mod32; }\<close>, with the
  per-row pair count \<open>i = width / 2\<close> already computed.
\<close>

fun row_loop ::
  "bool \<Rightarrow> tables \<Rightarrow> u16 list \<Rightarrow> nat \<Rightarrow> int \<Rightarrow> nat \<Rightarrow> int \<Rightarrow> int \<Rightarrow> u32 list
     \<Rightarrow> fault + u32 list" where
  "row_loop sc T sh i mod32 0 src32 dst32 out = Inr out"
| "row_loop sc T sh i mod32 (Suc height) src32 dst32 out =
     (case pair_loop sc T sh i src32 dst32 out of
        Inl e \<Rightarrow> Inl e
      | Inr (src32', dst32', out') \<Rightarrow>
          row_loop sc T sh i mod32 height (src32' + mod32) (dst32' + mod32) out')"

text \<open>
  The body of \<open>while (num--)\<close> for one box. The \<open>short\<close> coordinates are promoted to
  \<open>int\<close>; \<open>pbox->y1 * pCube->ShadowPitch\<close>, the byte offset and \<open>mod\<close> are computed
  in \<open>u32\<close> (wrapping), \<open>mod\<close> is then read back as an \<open>int\<close>; \<open>width / 2\<close> and
  \<open>mod / 4\<close> are C's truncating division. Source and destination use the same byte
  offset, \<open>pbox->y1 * ShadowPitch + left * 2\<close>. The source's variable \<open>mod\<close> is
  written \<open>mod'\<close>. With a \<open>height\<close> of zero the row loop is not entered; with a
  pair count of zero it runs without touching either surface.
\<close>

definition refresh_box ::
  "bool \<Rightarrow> tables \<Rightarrow> u16 list \<Rightarrow> u32 \<Rightarrow> BoxRec \<Rightarrow> u32 list \<Rightarrow> fault + u32 list" where
  "refresh_box sc T sh pitch pbox out =
     (let left = (scast (x1 pbox) :: u32) AND NOT 1;
          width = ((scast (x2 pbox) :: u32) + 1) AND NOT 1;
          height = (scast (y2 pbox) :: u32) - scast (y1 pbox);
          off = scast (y1 pbox) * pitch + left * 2;
          mod' = pitch - width * 2;
          mod32 = sint mod' sdiv 4
      in if sint height < 0 then Inl NegativeCount
         else if sint height = 0 then Inr out
         else if sint width sdiv 2 < 0 then Inl NegativeCount
         else if 0 < sint width sdiv 2 \<and> \<not> 4 dvd uint off then Inl Misaligned
         else row_loop sc T sh (nat (sint width sdiv 2)) mod32 (nat (sint height))
                (uint off div 4) (uint off div 4) out)"

text \<open>\<open>while (num--) { ...; pbox++; }\<close> over the \<open>num\<close> boxes that \<open>pbox\<close> points to.\<close>

fun refresh_boxes ::
  "bool \<Rightarrow> tables \<Rightarrow> u16 list \<Rightarrow> u32 \<Rightarrow> BoxRec list \<Rightarrow> u32 list \<Rightarrow> fault + u32 list" where
  "refresh_boxes sc T sh pitch [] out = Inr out"
| "refresh_boxes sc T sh pitch (pbox # rest) out =
     (case refresh_box sc T sh pitch pbox out of
        Inl e \<Rightarrow> Inl e
      | Inr out' \<Rightarrow> refresh_boxes sc T sh pitch rest out')"

definition CUBERefreshArea ::
  "bool \<Rightarrow> tables \<Rightarrow> 'a CUBERec_scheme \<Rightarrow> BoxRec list \<Rightarrow> fault + 'a CUBERec_scheme" where
  "CUBERefreshArea sc T pCube boxes =
     (if Blanked pCube then Inr pCube
      else case refresh_boxes sc T (ShadowPtr pCube) (ShadowPitch pCube) boxes (mapped_mem pCube) of
             Inl e \<Rightarrow> Inl e
           | Inr out \<Rightarrow> Inr (pCube\<lparr>mapped_mem := out\<rparr>))"

text \<open>
  \<open>CUBERefreshAll\<close>: one box, 640 wide (hard-coded) and \<open>VDisplay\<close> high, where
  \<open>VDisplay\<close> is \<open>pScrn->currentMode->VDisplay\<close>, an \<open>int\<close> narrowed to the box's
  \<open>short\<close>.
\<close>

definition CUBERefreshAll ::
  "bool \<Rightarrow> tables \<Rightarrow> int \<Rightarrow> 'a CUBERec_scheme \<Rightarrow> fault + 'a CUBERec_scheme" where
  "CUBERefreshAll sc T VDisplay pCube =
     CUBERefreshArea sc T pCube [\<lparr> x1 = 0, y1 = 0, x2 = 640, y2 = word_of_int VDisplay \<rparr>]"

section \<open>CUBESaveScreen\<close>

text \<open>
  \<open>unblank\<close> is the result of the server's \<open>xf86IsUnblank(mode)\<close>.
  \<open>memset(pCube->mapped_mem, 0, pCube->mapped_memlen)\<close> zeroes the whole mapping.
  The C function always returns \<open>TRUE\<close>; the model returns the state it leaves.
\<close>

definition CUBESaveScreen ::
  "bool \<Rightarrow> tables \<Rightarrow> int \<Rightarrow> 'a CUBERec_scheme \<Rightarrow> bool \<Rightarrow> fault + 'a CUBERec_scheme" where
  "CUBESaveScreen sc T VDisplay pCube unblank =
     (let pCube' = pCube\<lparr>Blanked := \<not> unblank\<rparr>
      in if unblank then CUBERefreshAll sc T VDisplay pCube'
         else Inr (pCube'\<lparr>mapped_mem := replicate (length (mapped_mem pCube')) 0\<rparr>))"

text \<open>The scenario "blank, then unblank": two calls of \<open>CUBESaveScreen\<close> in a row.\<close>

definition blank_unblank ::
  "bool \<Rightarrow> tables \<Rightarrow> int \<Rightarrow> 'a CUBERec_scheme \<Rightarrow> fault + 'a CUBERec_scheme" where
  "blank_unblank sc T VDisplay pCube =
     (case CUBESaveScreen sc T VDisplay pCube False of
        Inl e \<Rightarrow> Inl e
      | Inr blanked \<Rightarrow> CUBESaveScreen sc T VDisplay blanked True)"

section \<open>Vocabulary for the statements about the surfaces\<close>

text \<open>
  \<open>override m xs\<close> is the list \<open>xs\<close> with the cells in the domain of \<open>m\<close> replaced
  by what \<open>m\<close> holds for them.
\<close>

definition override :: "(nat \<rightharpoonup> 'a) \<Rightarrow> 'a list \<Rightarrow> 'a list" where
  "override m xs = map (\<lambda>j. case m j of None \<Rightarrow> xs ! j | Some v \<Rightarrow> v) [0..<length xs]"

text \<open>
  \<open>span f n s d\<close> maps the destination word \<open>d + k\<close>, for each \<open>k < n\<close>, to the value
  of \<open>f\<close> at the source word \<open>s + k\<close>, and no other word to anything.
\<close>

definition span :: "(int \<Rightarrow> 'a) \<Rightarrow> nat \<Rightarrow> int \<Rightarrow> int \<Rightarrow> nat \<rightharpoonup> 'a" where
  "span f n s d = (\<lambda>j. if d \<le> int j \<and> int j < d + int n then Some (f (s + (int j - d))) else None)"

text \<open>
  \<open>rows_fit sh len i mod32 height s\<close>: each of the \<open>height\<close> rows of \<open>i\<close> words, the
  first starting at word \<open>s\<close> and each next one \<open>i + mod32\<close> words further on, lies
  inside a shadow surface \<open>sh\<close> and an output surface of \<open>len\<close> words.
\<close>

definition rows_fit :: "u16 list \<Rightarrow> nat \<Rightarrow> nat \<Rightarrow> int \<Rightarrow> nat \<Rightarrow> int \<Rightarrow> bool" where
  "rows_fit sh len i mod32 height s \<longleftrightarrow>
     (\<forall>r \<in> {0..<height}.
        0 \<le> s + int r * (int i + mod32) \<and>
        2 * (s + int r * (int i + mod32) + int i) \<le> int (length sh) \<and>
        s + int r * (int i + mod32) + int i \<le> int len)"

text \<open>
  \<open>box_fits sh pitch len pbox\<close>: the words \<open>CUBERefreshArea\<close> reads and writes for the
  box lie inside both surfaces. A box of height zero touches nothing, nor does one
  whose pair count is zero; otherwise the start offset is a multiple of four and the
  rows fit. The quantities are those of \<open>refresh_box\<close>.
\<close>

definition box_fits :: "u16 list \<Rightarrow> u32 \<Rightarrow> nat \<Rightarrow> BoxRec \<Rightarrow> bool" where
  "box_fits sh pitch len pbox =
     (let left = (scast (x1 pbox) :: u32) AND NOT 1;
          width = ((scast (x2 pbox) :: u32) + 1) AND NOT 1;
          height = (scast (y2 pbox) :: u32) - scast (y1 pbox);
          off = scast (y1 pbox) * pitch + left * 2;
          mod' = pitch - width * 2;
          mod32 = sint mod' sdiv 4
      in sint height = 0 \<or>
         (0 < sint height \<and>
          (sint width sdiv 2 = 0 \<or>
           (0 < sint width sdiv 2 \<and> 4 dvd uint off \<and>
            rows_fit sh len (nat (sint width sdiv 2)) mod32 (nat (sint height)) (uint off div 4)))))"

text \<open>
  \<open>on_screen h pbox\<close>: a box inside a screen 640 wide and \<open>h\<close> high that either ends
  above the last row, or whose left edge rounded down to even and right edge rounded
  up to even add up to at most 640 pixels (320 pairs).
\<close>

definition on_screen :: "int \<Rightarrow> BoxRec \<Rightarrow> bool" where
  "on_screen h pbox \<longleftrightarrow>
     0 \<le> sint (x1 pbox) \<and> sint (x1 pbox) \<le> sint (x2 pbox) \<and> sint (x2 pbox) \<le> 640 \<and>
     0 \<le> sint (y1 pbox) \<and> sint (y1 pbox) \<le> sint (y2 pbox) \<and> sint (y2 pbox) \<le> h \<and>
     (sint (y2 pbox) < h \<or> sint (x1 pbox) div 2 + (sint (x2 pbox) + 1) div 2 \<le> 320)"

section \<open>The tables after initialization\<close>

text \<open>The nine coefficients as numbers.\<close>

lemma coeffs: "Yr = 19595" "Yg = 38469" "Yb = 7471" "Ur = -11075" "Ug = -21692" "Ub = 32768"
  "Vr = 32768" "Vg = -27459" "Vb = -5308"
  by (simp_all add: Yr_def Yg_def Yb_def Ur_def Ug_def Ub_def Vr_def Vg_def Vb_def RGB2YUV_SHIFT_def)

text \<open>The scaled channel values index the 256-entry tables within bounds.\<close>

lemma m5: "(0x1f :: u32) = mask 5" and m6: "(0x3f :: u32) = mask 6" and m8: "(255 :: u32) = mask 8"
  by (simp_all add: mask_eq_exp_minus_1)

lemma scale5_lt: "scale5 (c AND 0x1f) < 256"
proof -
  have "scale5 (c AND mask 5) AND mask 8 = scale5 (c AND mask 5)"
    unfolding scale5_def
    by (rule bit_word_eqI) (auto simp add: bit_simps)
  then have "scale5 (c AND mask 5) \<le> mask 8"
    by (metis word_and_le1)
  then show ?thesis
    by (simp add: mask_eq_exp_minus_1 word_le_nat_alt word_less_nat_alt)
qed

lemma scale6_lt: "scale6 (c AND 0x3f) < 256"
proof -
  have "scale6 (c AND mask 6) AND mask 8 = scale6 (c AND mask 6)"
    unfolding scale6_def
    by (rule bit_word_eqI) (auto simp add: bit_simps)
  then have "scale6 (c AND mask 6) \<le> mask 8"
    by (metis word_and_le1)
  then show ?thesis
    by (simp add: mask_eq_exp_minus_1 word_le_nat_alt word_less_nat_alt)
qed

lemma channel_index:
  "unat (scale5 (rgb565_r i)) < 256" "unat (scale6 (rgb565_g i)) < 256"
  "unat (scale5 (rgb565_b i)) < 256"
  using scale5_lt [of "drop_bit 11 i"] scale6_lt [of "drop_bit 5 i"] scale5_lt [of "drop_bit 0 i"]
  by (simp_all add: rgb565_r_def rgb565_g_def rgb565_b_def word_less_nat_alt)

text \<open>The first loop writes the small tables only, entry \<open>i\<close> in round \<open>i\<close>.\<close>

lemma step1_big [simp]:
  "RGB16toY (init_step1 i T) = RGB16toY T"
  "RGB16toU (init_step1 i T) = RGB16toU T"
  "RGB16toV (init_step1 i T) = RGB16toV T"
  by (simp_all add: init_step1_def)

lemma fold1_big:
  "RGB16toY (fold init_step1 [0..<n] T) = RGB16toY T \<and>
   RGB16toU (fold init_step1 [0..<n] T) = RGB16toU T \<and>
   RGB16toV (fold init_step1 [0..<n] T) = RGB16toV T"
  by (induction n) simp_all

lemma step1_small:
  "r_Yr (init_step1 i T) = (r_Yr T)[i := word_of_int (Yr * int i)]"
  "g_Yg (init_step1 i T) = (g_Yg T)[i := word_of_int (Yg * int i + push_bit RGB2YUV_SHIFT RGB2YUV_LUMA)]"
  "b_Yb (init_step1 i T) = (b_Yb T)[i := word_of_int (Yb * int i)]"
  "r_Ur (init_step1 i T) = (r_Ur T)[i := word_of_int (Ur * int i)]"
  "g_Ug (init_step1 i T) = (g_Ug T)[i := word_of_int (Ug * int i + push_bit RGB2YUV_SHIFT RGB2YUV_CHROMA)]"
  "b_Ub (init_step1 i T) = (b_Ub T)[i := word_of_int (Vr * int i)]"
  "g_Vg (init_step1 i T) = (g_Vg T)[i := word_of_int (Vg * int i + push_bit RGB2YUV_SHIFT RGB2YUV_CHROMA)]"
  "b_Vb (init_step1 i T) = (b_Vb T)[i := word_of_int (Vb * int i)]"
  by (simp_all add: init_step1_def)

text \<open>A loop that assigns \<open>f i\<close> to cell \<open>i\<close> for \<open>i\<close> from \<open>0\<close> to \<open>n - 1\<close>.\<close>

lemma fold_update_length:
  "length (fold (\<lambda>i xs. xs[i := f i]) [0..<n] xs) = length xs"
  by (induction n) simp_all

lemma fold_update_nth:
  "j < length xs \<Longrightarrow>
   fold (\<lambda>i xs. xs[i := f i]) [0..<n] xs ! j = (if j < n then f j else xs ! j)"
proof (induction n)
  case 0
  then show ?case by simp
next
  case (Suc n)
  show ?case
  proof (cases "j = n")
    case True
    with Suc.prems show ?thesis by (simp add: fold_update_length)
  next
    case False
    with Suc show ?thesis by (simp add: less_Suc_eq)
  qed
qed

lemma fold1_as_update:
  "r_Yr (fold init_step1 [0..<n] T) =
     fold (\<lambda>i xs. xs[i := word_of_int (Yr * int i)]) [0..<n] (r_Yr T)"
  "g_Yg (fold init_step1 [0..<n] T) =
     fold (\<lambda>i xs. xs[i := word_of_int (Yg * int i + push_bit RGB2YUV_SHIFT RGB2YUV_LUMA)])
       [0..<n] (g_Yg T)"
  "b_Yb (fold init_step1 [0..<n] T) =
     fold (\<lambda>i xs. xs[i := word_of_int (Yb * int i)]) [0..<n] (b_Yb T)"
  "r_Ur (fold init_step1 [0..<n] T) =
     fold (\<lambda>i xs. xs[i := word_of_int (Ur * int i)]) [0..<n] (r_Ur T)"
  "g_Ug (fold init_step1 [0..<n] T) =
     fold (\<lambda>i xs. xs[i := word_of_int (Ug * int i + push_bit RGB2YUV_SHIFT RGB2YUV_CHROMA)])
       [0..<n] (g_Ug T)"
  "b_Ub (fold init_step1 [0..<n] T) =
     fold (\<lambda>i xs. xs[i := word_of_int (Vr * int i)]) [0..<n] (b_Ub T)"
  "g_Vg (fold init_step1 [0..<n] T) =
     fold (\<lambda>i xs. xs[i := word_of_int (Vg * int i + push_bit RGB2YUV_SHIFT RGB2YUV_CHROMA)])
       [0..<n] (g_Vg T)"
  "b_Vb (fold init_step1 [0..<n] T) =
     fold (\<lambda>i xs. xs[i := word_of_int (Vb * int i)]) [0..<n] (b_Vb T)"
  by (induction n, simp, simp add: step1_small del: of_int_mult of_int_add)+


text \<open>The second loop writes the large tables only, reading the small ones.\<close>

lemma step2_small [simp]:
  "r_Yr (init_step2 i T) = r_Yr T" "g_Yg (init_step2 i T) = g_Yg T"
  "b_Yb (init_step2 i T) = b_Yb T" "r_Ur (init_step2 i T) = r_Ur T"
  "g_Ug (init_step2 i T) = g_Ug T" "b_Ub (init_step2 i T) = b_Ub T"
  "g_Vg (init_step2 i T) = g_Vg T" "b_Vb (init_step2 i T) = b_Vb T"
  by (simp_all add: init_step2_def)

lemma fold2_small:
  "r_Yr (fold init_step2 [0..<n] T) = r_Yr T \<and> g_Yg (fold init_step2 [0..<n] T) = g_Yg T \<and>
   b_Yb (fold init_step2 [0..<n] T) = b_Yb T \<and> r_Ur (fold init_step2 [0..<n] T) = r_Ur T \<and>
   g_Ug (fold init_step2 [0..<n] T) = g_Ug T \<and> b_Ub (fold init_step2 [0..<n] T) = b_Ub T \<and>
   g_Vg (fold init_step2 [0..<n] T) = g_Vg T \<and> b_Vb (fold init_step2 [0..<n] T) = b_Vb T"
  by (induction n) simp_all

lemma step2_big:
  "RGB16toY (init_step2 i T) =
     (RGB16toY T)[i := ucast (clamp 16 235 (drop_bit RGB2YUV_SHIFT (luma_sum T i)))]"
  "RGB16toU (init_step2 i T) =
     (RGB16toU T)[i := ucast (clamp 16 240 (drop_bit RGB2YUV_SHIFT (cb_sum T i)))]"
  "RGB16toV (init_step2 i T) =
     (RGB16toV T)[i := ucast (clamp 16 240 (drop_bit RGB2YUV_SHIFT (cr_sum T i)))]"
  by (simp_all add: init_step2_def)

lemma sums_fold2:
  "luma_sum (fold init_step2 [0..<n] T) i = luma_sum T i"
  "cb_sum (fold init_step2 [0..<n] T) i = cb_sum T i"
  "cr_sum (fold init_step2 [0..<n] T) i = cr_sum T i"
  by (simp_all add: luma_sum_def cb_sum_def cr_sum_def fold2_small)

lemma fold2_as_update:
  "RGB16toY (fold init_step2 [0..<n] T) =
     fold (\<lambda>i xs. xs[i := ucast (clamp 16 235 (drop_bit RGB2YUV_SHIFT (luma_sum T i)))])
       [0..<n] (RGB16toY T)"
  "RGB16toU (fold init_step2 [0..<n] T) =
     fold (\<lambda>i xs. xs[i := ucast (clamp 16 240 (drop_bit RGB2YUV_SHIFT (cb_sum T i)))])
       [0..<n] (RGB16toU T)"
  "RGB16toV (fold init_step2 [0..<n] T) =
     fold (\<lambda>i xs. xs[i := ucast (clamp 16 240 (drop_bit RGB2YUV_SHIFT (cr_sum T i)))])
       [0..<n] (RGB16toV T)"
  by (induction n, simp, simp add: step2_big sums_fold2)+

lemma sized_init: "sized T \<Longrightarrow> sized (initRGB2YUVTables T)"
  by (simp add: sized_def initRGB2YUVTables_def fold2_small fold1_as_update fold2_as_update
      fold_update_length fold1_big)

text \<open>What the first loop leaves in the small tables.\<close>

lemma small_entries:
  assumes "sized T" and "j < 256"
  shows "r_Yr (initRGB2YUVTables T) ! j = word_of_int (Yr * int j)"
    and "g_Yg (initRGB2YUVTables T) ! j = word_of_int (Yg * int j + push_bit RGB2YUV_SHIFT RGB2YUV_LUMA)"
    and "b_Yb (initRGB2YUVTables T) ! j = word_of_int (Yb * int j)"
    and "r_Ur (initRGB2YUVTables T) ! j = word_of_int (Ur * int j)"
    and "g_Ug (initRGB2YUVTables T) ! j = word_of_int (Ug * int j + push_bit RGB2YUV_SHIFT RGB2YUV_CHROMA)"
    and "b_Ub (initRGB2YUVTables T) ! j = word_of_int (Vr * int j)"
    and "g_Vg (initRGB2YUVTables T) ! j = word_of_int (Vg * int j + push_bit RGB2YUV_SHIFT RGB2YUV_CHROMA)"
    and "b_Vb (initRGB2YUVTables T) ! j = word_of_int (Vb * int j)"
  using assms
  by (simp_all add: sized_def initRGB2YUVTables_def fold2_small fold1_as_update fold_update_nth
      del: of_int_mult of_int_add)

lemma big_entries:
  assumes "sized T" and "i < 65536"
  shows "RGB16toY (initRGB2YUVTables T) ! i =
           ucast (clamp 16 235 (drop_bit RGB2YUV_SHIFT (luma_sum (initRGB2YUVTables T) i)))"
    and "RGB16toU (initRGB2YUVTables T) ! i =
           ucast (clamp 16 240 (drop_bit RGB2YUV_SHIFT (cb_sum (initRGB2YUVTables T) i)))"
    and "RGB16toV (initRGB2YUVTables T) ! i =
           ucast (clamp 16 240 (drop_bit RGB2YUV_SHIFT (cr_sum (initRGB2YUVTables T) i)))"
  using assms
  by (simp_all add: sized_def initRGB2YUVTables_def fold2_as_update fold_update_nth fold1_big
      sums_fold2)


text \<open>Every entry of the large tables in closed form.\<close>

lemma luma_entry:
  assumes "sized T" and "i < 65536"
  shows "RGB16toY (initRGB2YUVTables T) ! i =
     ucast (clamp 16 235 (drop_bit RGB2YUV_SHIFT
       (word_of_int (Yr * int (unat (scale5 (rgb565_r (of_nat i)))))
        + word_of_int (Yg * int (unat (scale6 (rgb565_g (of_nat i))))
             + push_bit RGB2YUV_SHIFT RGB2YUV_LUMA)
        + word_of_int (Yb * int (unat (scale5 (rgb565_b (of_nat i))))))))"
  using assms
  by (simp add: big_entries luma_sum_def Let_def small_entries channel_index
      del: of_int_mult of_int_add)

lemma cb_entry:
  assumes "sized T" and "i < 65536"
  shows "RGB16toU (initRGB2YUVTables T) ! i =
     ucast (clamp 16 240 (drop_bit RGB2YUV_SHIFT
       (word_of_int (Ur * int (unat (scale5 (rgb565_r (of_nat i)))))
        + word_of_int (Ug * int (unat (scale6 (rgb565_g (of_nat i))))
             + push_bit RGB2YUV_SHIFT RGB2YUV_CHROMA)
        + word_of_int (Vr * int (unat (scale5 (rgb565_b (of_nat i))))))))"
  using assms
  by (simp add: big_entries cb_sum_def Let_def small_entries channel_index
      del: of_int_mult of_int_add)

lemma cr_entry:
  assumes "sized T" and "i < 65536"
  shows "RGB16toV (initRGB2YUVTables T) ! i =
     ucast (clamp 16 240 (drop_bit RGB2YUV_SHIFT
       (word_of_int (Vr * int (unat (scale5 (rgb565_r (of_nat i)))))
        + word_of_int (Vg * int (unat (scale6 (rgb565_g (of_nat i))))
             + push_bit RGB2YUV_SHIFT RGB2YUV_CHROMA)
        + word_of_int (Vb * int (unat (scale5 (rgb565_b (of_nat i))))))))"
  using assms
  by (simp add: big_entries cr_sum_def Let_def small_entries channel_index
      del: of_int_mult of_int_add)

text \<open>Three entries evaluated: black, white and pure blue.\<close>

lemmas eval_defs = coeffs RGB2YUV_SHIFT_def RGB2YUV_LUMA_def RGB2YUV_CHROMA_def
  rgb565_r_def rgb565_g_def rgb565_b_def scale5_def scale6_def clamp_def

lemma entries_black:
  assumes "sized T"
  shows "RGB16toY (initRGB2YUVTables T) ! 0 = 16"
    and "RGB16toU (initRGB2YUVTables T) ! 0 = 128"
    and "RGB16toV (initRGB2YUVTables T) ! 0 = 128"
  using assms by (simp_all add: luma_entry cb_entry cr_entry eval_defs)

lemma entries_white:
  assumes "sized T"
  shows "RGB16toY (initRGB2YUVTables T) ! 65535 = 235"
    and "RGB16toU (initRGB2YUVTables T) ! 65535 = 128"
    and "RGB16toV (initRGB2YUVTables T) ! 65535 = 128"
  using assms by (simp_all add: luma_entry cb_entry cr_entry eval_defs)

lemma entries_blue:
  assumes "sized T"
  shows "RGB16toY (initRGB2YUVTables T) ! 31 = 45"
    and "RGB16toU (initRGB2YUVTables T) ! 31 = 240"
    and "RGB16toV (initRGB2YUVTables T) ! 31 = 107"
  using assms by (simp_all add: luma_entry cb_entry cr_entry eval_defs)

lemma sized_zero: "sized zero_tables"
  by (simp add: sized_def zero_tables_def)

section \<open>Range of the table entries\<close>

lemma clamp_range: "x \<le> y \<Longrightarrow> x \<le> clamp x y z \<and> clamp x y z \<le> y"
  by (auto simp add: clamp_def)

lemma ucast_byte_unat:
  "(w :: u32) < 256 \<Longrightarrow> unat (ucast w :: u8) = unat w"
  by (simp add: unsigned_ucast_eq take_bit_nat_eq_self word_less_nat_alt)

lemma clamp_byte:
  assumes "x \<le> y" "y < 256"
  shows "ucast x \<le> (ucast (clamp x y z) :: u8) \<and> (ucast (clamp x y z) :: u8) \<le> ucast y"
proof -
  have c: "x \<le> clamp x y z" "clamp x y z \<le> y"
    using clamp_range [OF assms(1)] by simp_all
  with assms(2) have "clamp x y z < 256" "x < 256" by simp_all
  with assms(2) c show ?thesis
    by (simp add: word_le_nat_alt ucast_byte_unat)
qed

text \<open>
  Claim C4. After \<open>initRGB2YUVTables\<close> has run, every entry of \<open>RGB16toY\<close>, at each
  of the 65536 indices, lies in \<open>[16, 235]\<close>, and every entry of \<open>RGB16toU\<close> and of
  \<open>RGB16toV\<close> lies in \<open>[16, 240]\<close>.
\<close>

theorem table_ranges:
  assumes "sized T" and "i < 65536"
  shows "16 \<le> RGB16toY (initRGB2YUVTables T) ! i \<and> RGB16toY (initRGB2YUVTables T) ! i \<le> 235 \<and>
         16 \<le> RGB16toU (initRGB2YUVTables T) ! i \<and> RGB16toU (initRGB2YUVTables T) ! i \<le> 240 \<and>
         16 \<le> RGB16toV (initRGB2YUVTables T) ! i \<and> RGB16toV (initRGB2YUVTables T) ! i \<le> 240"
  using clamp_byte [of 16 235] clamp_byte [of 16 240]
  by (simp add: big_entries [OF assms])

theorem table_ranges_witness:
  "sized zero_tables \<and> (65535::nat) < 65536 \<and>
   16 \<le> RGB16toY (initRGB2YUVTables zero_tables) ! 65535 \<and>
   RGB16toY (initRGB2YUVTables zero_tables) ! 65535 \<le> 235 \<and>
   16 \<le> RGB16toU (initRGB2YUVTables zero_tables) ! 65535 \<and>
   RGB16toU (initRGB2YUVTables zero_tables) ! 65535 \<le> 240 \<and>
   16 \<le> RGB16toV (initRGB2YUVTables zero_tables) ! 65535 \<and>
   RGB16toV (initRGB2YUVTables zero_tables) ! 65535 \<le> 240"
  using table_ranges [of zero_tables 65535] by (simp add: sized_zero)

section \<open>The conversion kernel: fast paths and packing\<close>

text \<open>
  Claim C3. The all-zero pixel pair converts to the constant \<open>0x00800080\<close>, whatever
  the tables hold (no table entry is read on this path) and whatever the signedness
  of plain char.
\<close>

theorem black_pair: "rgbrgb16toyuy2 sc T 0 0 = 0x00800080"
  by (simp add: rgbrgb16toyuy2_def)


text \<open>
  With an unsigned plain char the cast \<open>(char)\<close> returns a table byte as it is, and
  the four shifted bytes do not overlap.
\<close>

lemma char_cast_unsigned: "char_cast False (ucast (b :: u8)) = ucast b"
  unfolding char_cast_def
  by simp (rule bit_word_eqI, auto simp add: bit_simps dest: bit_imp_le_length)

lemma pack_unsigned:
  "pack False (ucast (a :: u8)) (ucast (b :: u8)) (ucast (c :: u8)) (ucast (d :: u8)) =
     push_bit 24 (ucast a) OR push_bit 16 (ucast b) OR push_bit 8 (ucast c) OR ucast d"
  by (simp add: pack_def char_cast_unsigned)

lemma bytes_of_word:
  fixes a b c d :: u8
  shows "byte_of 3 (push_bit 24 (ucast a) OR push_bit 16 (ucast b) OR push_bit 8 (ucast c) OR ucast d :: u32) = a"
    and "byte_of 2 (push_bit 24 (ucast a) OR push_bit 16 (ucast b) OR push_bit 8 (ucast c) OR ucast d :: u32) = b"
    and "byte_of (Suc 0) (push_bit 24 (ucast a) OR push_bit 16 (ucast b) OR push_bit 8 (ucast c) OR ucast d :: u32) = c"
    and "byte_of 0 (push_bit 24 (ucast a) OR push_bit 16 (ucast b) OR push_bit 8 (ucast c) OR ucast d :: u32) = d"
  unfolding byte_of_def
  by (rule bit_word_eqI, auto simp add: bit_simps dest: bit_imp_le_length)+

text \<open>The table-driven branches with the casts resolved for an unsigned plain char.\<close>

lemma table_path_unsigned:
  "table_path False T rgb1 rgb2 =
     (let rgb = (if rgb1 = rgb2 then rgb1 else rgb_mean rgb1 rgb2) in
      push_bit 24 (ucast (RGB16toY T ! unat rgb1)) OR push_bit 16 (ucast (RGB16toU T ! unat rgb))
        OR push_bit 8 (ucast (RGB16toY T ! unat rgb2)) OR ucast (RGB16toV T ! unat rgb))"
  by (simp add: table_path_def Let_def pack_unsigned)

text \<open>
  With a signed plain char the cast sign-extends every byte from 128 upwards, and
  the extension bits are ORed over the bytes above: white no longer packs to
  \<open>[235, 128, 235, 128]\<close>.
\<close>

lemma signed_char_white:
  assumes "sized T0"
  shows "rgbrgb16toyuy2 False (initRGB2YUVTables T0) 0xFFFF 0xFFFF = 0xEB80EB80"
    and "rgbrgb16toyuy2 True (initRGB2YUVTables T0) 0xFFFF 0xFFFF = 0xFFFFFF80"
  using assms
  by (simp_all add: rgbrgb16toyuy2_def table_path_def pack_def char_cast_def entries_white)

text \<open>
  Claim C1, as the code has it. Where plain char is unsigned (the PowerPC target),
  every pixel pair other than \<open>(0, 0)\<close> is packed, after table initialization, into
  the bytes \<open>[Y_left, Cb, Y_right, Cr]\<close> from the most to the least significant one:
  the luma entries of the two pixels and the chroma entries of \<open>rgb\<close>, which is the
  pixel itself when both are equal and \<open>rgb_mean\<close> of the two otherwise. The casts
  to \<open>char\<close> change nothing there: the result is the same expression without them.
\<close>

theorem packed_layout:
  assumes "\<not> sc" and "rgb1 \<noteq> 0 \<or> rgb2 \<noteq> 0"
  shows "let T = initRGB2YUVTables T0;
             rgb = (if rgb1 = rgb2 then rgb1 else rgb_mean rgb1 rgb2);
             w = rgbrgb16toyuy2 sc T rgb1 rgb2
         in byte_of 3 w = RGB16toY T ! unat rgb1 \<and> byte_of 2 w = RGB16toU T ! unat rgb \<and>
            byte_of 1 w = RGB16toY T ! unat rgb2 \<and> byte_of 0 w = RGB16toV T ! unat rgb \<and>
            w = push_bit 24 (ucast (RGB16toY T ! unat rgb1))
                  OR push_bit 16 (ucast (RGB16toU T ! unat rgb))
                  OR push_bit 8 (ucast (RGB16toY T ! unat rgb2))
                  OR push_bit 0 (ucast (RGB16toV T ! unat rgb))"
proof -
  from assms(2) have "rgb1 OR rgb2 \<noteq> 0"
    by (simp add: or_eq_0_iff)
  with assms(1) show ?thesis
    by (simp add: rgbrgb16toyuy2_def table_path_unsigned Let_def bytes_of_word)
qed

theorem packed_layout_witness:
  "(0xFFFF :: u16) \<noteq> 0 \<and> rgb_mean 0xFFFF 0x001F = 0x7BFF \<and>
   (let T = initRGB2YUVTables zero_tables;
        w = rgbrgb16toyuy2 False T 0xFFFF 0x001F
    in byte_of 3 w = RGB16toY T ! 65535 \<and> byte_of 2 w = RGB16toU T ! 31743 \<and>
       byte_of 1 w = RGB16toY T ! 31 \<and> byte_of 0 w = RGB16toV T ! 31743)"
  using packed_layout [of False "0xFFFF" "0x001F" zero_tables]
  by (simp add: rgb_mean_def Let_def bytes_of_word)

text \<open>
  Claim C1 as stated fails at the pair \<open>(0, 0)\<close>: the top byte of the result is
  \<open>0\<close>, the luma entry of pixel \<open>0\<close> is \<open>16\<close>.
\<close>

theorem packed_layout_fails_at_zero:
  "byte_of 3 (rgbrgb16toyuy2 False (initRGB2YUVTables zero_tables) 0 0)
     \<noteq> RGB16toY (initRGB2YUVTables zero_tables) ! unat (0 :: u16)"
  by (simp add: rgbrgb16toyuy2_def byte_of_def entries_black sized_zero)

text \<open>
  Claim C5. For every 16-bit value \<open>v\<close>, with tables initialized and plain char
  unsigned, the first and the third byte of the macropixel of \<open>(v, v)\<close> are equal,
  and its second and fourth byte are the entries of \<open>RGB16toU\<close> and \<open>RGB16toV\<close>
  at \<open>v\<close> itself, not at an averaged pixel.
\<close>

theorem flat_pair:
  assumes "\<not> sc" and "sized T0"
  shows "let T = initRGB2YUVTables T0; w = rgbrgb16toyuy2 sc T v v
         in byte_of 3 w = byte_of 1 w \<and>
            byte_of 2 w = RGB16toU T ! unat v \<and> byte_of 0 w = RGB16toV T ! unat v"
proof (cases "v = 0")
  case True
  with assms show ?thesis
    by (simp add: rgbrgb16toyuy2_def byte_of_def entries_black)
next
  case False
  with assms show ?thesis
    by (simp add: rgbrgb16toyuy2_def table_path_unsigned bytes_of_word)
qed

theorem flat_pair_witness:
  "sized zero_tables \<and>
   (let T = initRGB2YUVTables zero_tables; w = rgbrgb16toyuy2 False T 0x001F 0x001F
    in byte_of 3 w = byte_of 1 w \<and> byte_of 2 w = 240 \<and> byte_of 0 w = 107)"
  using flat_pair [of False zero_tables "0x001F"]
  by (simp add: sized_zero entries_blue Let_def)

text \<open>
  Claim C10. After table initialization the pair \<open>(0, 0)\<close> converts to \<open>0x00800080\<close>,
  whose two luma bytes are \<open>0\<close>, below the luma entry \<open>16\<close> of pixel \<open>0\<close>. The
  table-driven branch would return \<open>0x10801080\<close> there (plain char unsigned), and
  for either signedness something other than what the fast path returns.
\<close>

theorem zero_pair_below_floor:
  assumes "sized T0"
  shows "let T = initRGB2YUVTables T0; w = rgbrgb16toyuy2 sc T 0 0
         in w = 0x00800080 \<and> byte_of 3 w = 0 \<and> byte_of 1 w = 0 \<and>
            RGB16toY T ! 0 = 16 \<and> byte_of 3 w < RGB16toY T ! 0 \<and>
            table_path False T 0 0 = 0x10801080 \<and>
            w \<noteq> table_path sc T 0 0"
proof -
  have "table_path True (initRGB2YUVTables T0) 0 0 = 0xFFFFFF80"
    using assms by (simp add: table_path_def pack_def char_cast_def entries_black)
  moreover have "table_path False (initRGB2YUVTables T0) 0 0 = 0x10801080"
    using assms by (simp add: table_path_def pack_def char_cast_def entries_black)
  ultimately show ?thesis
    using assms by (cases sc) (simp_all add: rgbrgb16toyuy2_def byte_of_def entries_black Let_def)
qed

theorem zero_pair_below_floor_witness:
  "sized zero_tables \<and>
   rgbrgb16toyuy2 False (initRGB2YUVTables zero_tables) 0 0 = 0x00800080 \<and>
   table_path False (initRGB2YUVTables zero_tables) 0 0 = 0x10801080"
  using zero_pair_below_floor [of zero_tables False]
  by (simp add: sized_zero Let_def)

section \<open>The averaged pixel\<close>

text \<open>
  Claim C2 fails on the code. For the distinct pixels \<open>0x07FF\<close> and \<open>0x07FE\<close>, both
  with red \<open>0\<close> and green \<open>63\<close>, the averaged pixel is \<open>0x081E\<close>: its green field
  is \<open>0\<close>, not \<open>63\<close>, and the carry out of green has made its red field \<open>1\<close>. The
  correction mask \<open>0x0841\<close> selects bit 6, the second bit of green, where the lowest
  bit of green is bit 5.
\<close>

theorem rgb_mean_green_carry:
  "rgb_mean 0x07FF 0x07FE = 0x081E \<and>
   rgb565_r (ucast (0x07FF :: u16)) = 0 \<and> rgb565_r (ucast (0x07FE :: u16)) = 0 \<and>
   rgb565_r (ucast (rgb_mean 0x07FF 0x07FE)) = 1 \<and>
   rgb565_g (ucast (0x07FF :: u16)) = 63 \<and> rgb565_g (ucast (0x07FE :: u16)) = 63 \<and>
   rgb565_g (ucast (rgb_mean 0x07FF 0x07FE)) = 0"
  by (simp add: rgb_mean_def rgb565_r_def rgb565_g_def)


section \<open>The refresh loops\<close>

text \<open>Overriding cells of a list, and the spans the innermost loop writes.\<close>

lemma length_override [simp]: "length (override m xs) = length xs"
  by (simp add: override_def)

lemma nth_override:
  "j < length xs \<Longrightarrow> override m xs ! j = (case m j of None \<Rightarrow> xs ! j | Some v \<Rightarrow> v)"
  by (simp add: override_def split: option.split)

lemma override_empty [simp]: "override Map.empty xs = xs"
  by (simp add: list_eq_iff_nth_eq nth_override)

lemma override_override: "override m2 (override m1 xs) = override (m1 ++ m2) xs"
  by (auto simp add: list_eq_iff_nth_eq nth_override map_add_def split: option.splits)

lemma override_idem: "override m (override m xs) = override m xs"
  by (auto simp add: list_eq_iff_nth_eq nth_override split: option.splits)

lemma override_update: "xs[i := v] = override [i \<mapsto> v] xs"
  by (auto simp add: list_eq_iff_nth_eq nth_override nth_list_update)

lemma span_0 [simp]: "span f 0 s d = Map.empty"
  by (auto simp add: span_def)

lemma span_Suc:
  "0 \<le> d \<Longrightarrow> [nat d \<mapsto> f s] ++ span f n (s + 1) (d + 1) = span f (Suc n) s d"
  by (rule ext) (auto simp add: span_def map_add_def)

lemma span_append:
  "span f a s d ++ span f b (s + int a) (d + int a) = span f (a + b) s d"
  by (rule ext) (auto simp add: span_def map_add_def algebra_simps)

text \<open>Within bounds, the innermost loop writes one span and advances both pointers.\<close>

lemma pair_loop_ok:
  assumes "0 \<le> s" and "2 * (s + int n) \<le> int (length sh)"
    and "0 \<le> d" and "d + int n \<le> int (length out)"
  shows "pair_loop sc T sh n s d out =
           Inr (s + int n, d + int n, override (span (macropixel sc T sh) n s d) out)"
  using assms
proof (induction n arbitrary: s d out)
  case 0
  then show ?case by simp
next
  case (Suc n)
  have "pair_loop sc T sh n (s + 1) (d + 1) (out[nat d := macropixel sc T sh s]) =
          Inr (s + 1 + int n, d + 1 + int n,
               override (span (macropixel sc T sh) n (s + 1) (d + 1)) (out[nat d := macropixel sc T sh s]))"
    using Suc.prems by (intro Suc.IH) simp_all
  moreover have "override (span (macropixel sc T sh) n (s + 1) (d + 1)) (out[nat d := macropixel sc T sh s])
      = override (span (macropixel sc T sh) (Suc n) s d) out"
    using Suc.prems(3) by (simp add: override_update override_override span_Suc)
  ultimately show ?case
    using Suc.prems by (simp add: add.assoc)
qed

text \<open>Conversely, a run that does not fault stayed within bounds.\<close>

lemma pair_loop_Inr:
  assumes "pair_loop sc T sh n s d out = Inr r" and "0 < n"
  shows "0 \<le> s \<and> 2 * (s + int n) \<le> int (length sh) \<and> 0 \<le> d \<and> d + int n \<le> int (length out)"
  using assms
proof (induction n arbitrary: s d out)
  case 0
  then show ?case by simp
next
  case (Suc n)
  from Suc.prems(1) have inb: "0 \<le> s" "2 * s + 2 \<le> int (length sh)" "0 \<le> d" "d < int (length out)"
    and rest: "pair_loop sc T sh n (s + 1) (d + 1) (out[nat d := macropixel sc T sh s]) = Inr r"
    by (simp_all split: if_splits)
  show ?case
  proof (cases n)
    case 0
    with inb show ?thesis by simp
  next
    case (Suc k)
    with Suc.IH [OF rest] inb show ?thesis by simp
  qed
qed

text \<open>Whether the loop faults, and what it writes, does not depend on what the output
  surface holds.\<close>

lemma pair_loop_indep:
  assumes "pair_loop sc T sh n s d out = Inr (s', d', out')"
  shows "\<exists>m. \<forall>ys. length ys = length out \<longrightarrow> pair_loop sc T sh n s d ys = Inr (s', d', override m ys)"
proof (cases n)
  case 0
  with assms have "s' = s" "d' = d" by simp_all
  with 0 have "\<forall>ys. length ys = length out \<longrightarrow> pair_loop sc T sh n s d ys = Inr (s', d', override Map.empty ys)"
    by simp
  then show ?thesis by blast
next
  case (Suc k)
  then have b: "0 \<le> s" "2 * (s + int n) \<le> int (length sh)" "0 \<le> d" "d + int n \<le> int (length out)"
    using pair_loop_Inr [OF assms] by simp_all
  from assms pair_loop_ok [OF b] have "s' = s + int n" "d' = d + int n" by simp_all
  then have "\<forall>ys. length ys = length out \<longrightarrow>
      pair_loop sc T sh n s d ys = Inr (s', d', override (span (macropixel sc T sh) n s d) ys)"
    using b by (simp add: pair_loop_ok)
  then show ?thesis by blast
qed


lemma pair_loop_length:
  "pair_loop sc T sh n s d out = Inr (s', d', out') \<Longrightarrow> length out' = length out"
  by (induction n arbitrary: s d out) (auto split: if_splits)

lemma row_loop_length:
  "row_loop sc T sh n m h s d out = Inr out' \<Longrightarrow> length out' = length out"
proof (induction h arbitrary: s d out)
  case 0
  then show ?case by simp
next
  case (Suc h)
  then show ?case
    by (auto split: sum.splits dest!: pair_loop_length)
qed

lemma row_loop_indep:
  assumes "row_loop sc T sh n m h s d out = Inr out'"
  shows "\<exists>w. \<forall>ys. length ys = length out \<longrightarrow> row_loop sc T sh n m h s d ys = Inr (override w ys)"
  using assms
proof (induction h arbitrary: s d out)
  case 0
  have "\<forall>ys. length ys = length out \<longrightarrow> row_loop sc T sh n m 0 s d ys = Inr (override Map.empty ys)"
    by simp
  then show ?case by blast
next
  case (Suc h)
  from Suc.prems obtain s1 d1 out1
    where row: "pair_loop sc T sh n s d out = Inr (s1, d1, out1)"
      and rest: "row_loop sc T sh n m h (s1 + m) (d1 + m) out1 = Inr out'"
    by (auto split: sum.splits)
  from pair_loop_indep [OF row] obtain w1
    where w1: "\<And>ys. length ys = length out \<Longrightarrow> pair_loop sc T sh n s d ys = Inr (s1, d1, override w1 ys)"
    by blast
  from Suc.IH [OF rest] obtain w2
    where w2: "\<And>ys. length ys = length out1 \<Longrightarrow>
                 row_loop sc T sh n m h (s1 + m) (d1 + m) ys = Inr (override w2 ys)"
    by blast
  have len: "length out1 = length out"
    using row by (rule pair_loop_length)
  have "\<forall>ys. length ys = length out \<longrightarrow>
          row_loop sc T sh n m (Suc h) s d ys = Inr (override (w1 ++ w2) ys)"
    by (simp add: w1 w2 len override_override)
  then show ?case by blast
qed

lemma refresh_box_indep:
  assumes "refresh_box sc T sh pitch b out = Inr out'"
  shows "\<exists>w. \<forall>ys. length ys = length out \<longrightarrow> refresh_box sc T sh pitch b ys = Inr (override w ys)"
proof (cases "sint ((scast (y2 b) :: u32) - scast (y1 b)) = 0")
  case True
  then have "\<forall>ys. length ys = length out \<longrightarrow> refresh_box sc T sh pitch b ys = Inr (override Map.empty ys)"
    by (simp add: refresh_box_def Let_def)
  then show ?thesis by blast
next
  case False
  with assms obtain n m h s
    where run: "row_loop sc T sh n m h s s out = Inr out'"
      and same: "\<And>ys. refresh_box sc T sh pitch b ys = row_loop sc T sh n m h s s ys"
    by (auto simp add: refresh_box_def Let_def split: if_splits)
  from row_loop_indep [OF run] same show ?thesis by simp
qed

lemma refresh_box_length:
  "refresh_box sc T sh pitch b out = Inr out' \<Longrightarrow> length out' = length out"
  by (auto simp add: refresh_box_def Let_def split: if_splits dest: row_loop_length)

lemma refresh_boxes_length:
  "refresh_boxes sc T sh pitch bs out = Inr out' \<Longrightarrow> length out' = length out"
proof (induction bs arbitrary: out)
  case Nil
  then show ?case by simp
next
  case (Cons b bs)
  then show ?case
    by (auto split: sum.splits dest!: refresh_box_length)
qed

lemma refresh_boxes_indep:
  assumes "refresh_boxes sc T sh pitch bs out = Inr out'"
  shows "\<exists>w. \<forall>ys. length ys = length out \<longrightarrow> refresh_boxes sc T sh pitch bs ys = Inr (override w ys)"
  using assms
proof (induction bs arbitrary: out)
  case Nil
  have "\<forall>ys. length ys = length out \<longrightarrow> refresh_boxes sc T sh pitch [] ys = Inr (override Map.empty ys)"
    by simp
  then show ?case by blast
next
  case (Cons b bs)
  from Cons.prems obtain out1
    where first: "refresh_box sc T sh pitch b out = Inr out1"
      and rest: "refresh_boxes sc T sh pitch bs out1 = Inr out'"
    by (auto split: sum.splits)
  from refresh_box_indep [OF first] obtain w1
    where w1: "\<And>ys. length ys = length out \<Longrightarrow> refresh_box sc T sh pitch b ys = Inr (override w1 ys)"
    by blast
  from Cons.IH [OF rest] obtain w2
    where w2: "\<And>ys. length ys = length out1 \<Longrightarrow> refresh_boxes sc T sh pitch bs ys = Inr (override w2 ys)"
    by blast
  have len: "length out1 = length out"
    using first by (rule refresh_box_length)
  have "\<forall>ys. length ys = length out \<longrightarrow>
          refresh_boxes sc T sh pitch (b # bs) ys = Inr (override (w1 ++ w2) ys)"
    by (simp add: w1 w2 len override_override)
  then show ?case by blast
qed

text \<open>Hence a second pass over the same boxes rewrites what the first one wrote.\<close>

lemma refresh_boxes_twice:
  assumes "refresh_boxes sc T sh pitch bs out = Inr out'"
  shows "refresh_boxes sc T sh pitch bs out' = Inr out'"
proof -
  from refresh_boxes_indep [OF assms] obtain w
    where w: "\<And>ys. length ys = length out \<Longrightarrow> refresh_boxes sc T sh pitch bs ys = Inr (override w ys)"
    by blast
  from w [of out] assms have out': "out' = override w out" by simp
  then have "length out' = length out" by simp
  from w [OF this] show ?thesis
    by (simp add: out' override_idem)
qed


section \<open>Which batches the refresh returns from\<close>

text \<open>
  The row loop returns exactly when its rows fit, a box exactly when it fits, and a
  batch exactly when each of its boxes fits: no write changes the length of the
  output surface.
\<close>

lemma rows_fit_0 [simp]: "rows_fit sh len i m 0 s"
  by (simp add: rows_fit_def)

lemma rows_fit_Suc:
  "rows_fit sh len i m (Suc h) s \<longleftrightarrow>
     (0 \<le> s \<and> 2 * (s + int i) \<le> int (length sh) \<and> s + int i \<le> int len) \<and>
     rows_fit sh len i m h (s + int i + m)"
proof -
  define P where "P = (\<lambda>s r. 0 \<le> s + int r * (int i + m) \<and>
     2 * (s + int r * (int i + m) + int i) \<le> int (length sh) \<and>
     s + int r * (int i + m) + int i \<le> int len)"
  have fit: "rows_fit sh len i m h s \<longleftrightarrow> (\<forall>r \<in> {0..<h}. P s r)" for h s
    by (simp add: rows_fit_def P_def)
  have step: "P s (Suc r) \<longleftrightarrow> P (s + int i + m) r" for r
    by (simp add: P_def algebra_simps)
  have zero: "P s 0 \<longleftrightarrow> 0 \<le> s \<and> 2 * (s + int i) \<le> int (length sh) \<and> s + int i \<le> int len"
    by (simp add: P_def)
  have "(\<forall>r \<in> {0..<Suc h}. P s r) \<longleftrightarrow> P s 0 \<and> (\<forall>r \<in> {0..<h}. P s (Suc r))"
    by (auto simp add: less_Suc_eq_0_disj)
  then show ?thesis
    unfolding fit step zero by simp
qed

lemma row_loop_fits:
  assumes "rows_fit sh (length out) i m h s"
  shows "\<exists>out'. row_loop sc T sh i m h s s out = Inr out'"
  using assms
proof (induction h arbitrary: s out)
  case 0
  then show ?case by simp
next
  case (Suc h)
  from Suc.prems have b: "0 \<le> s" "2 * (s + int i) \<le> int (length sh)" "s + int i \<le> int (length out)"
    and rest: "rows_fit sh (length out) i m h (s + int i + m)"
    by (simp_all add: rows_fit_Suc)
  have row: "pair_loop sc T sh i s s out =
               Inr (s + int i, s + int i, override (span (macropixel sc T sh) i s s) out)"
    using b by (intro pair_loop_ok)
  from rest have "rows_fit sh (length (override (span (macropixel sc T sh) i s s) out)) i m h (s + int i + m)"
    by simp
  from Suc.IH [OF this] row show ?case by simp
qed

lemma row_loop_Inr_fits:
  assumes "row_loop sc T sh i m h s s out = Inr out'" and "0 < i"
  shows "rows_fit sh (length out) i m h s"
  using assms(1)
proof (induction h arbitrary: s out)
  case 0
  then show ?case by simp
next
  case (Suc h)
  from Suc.prems obtain s1 d1 out1
    where row: "pair_loop sc T sh i s s out = Inr (s1, d1, out1)"
      and rest: "row_loop sc T sh i m h (s1 + m) (d1 + m) out1 = Inr out'"
    by (auto split: sum.splits)
  from pair_loop_Inr [OF row assms(2)]
  have b: "0 \<le> s" "2 * (s + int i) \<le> int (length sh)" "s + int i \<le> int (length out)"
    by simp_all
  with row have eq: "s1 = s + int i" "d1 = s + int i"
    by (simp_all add: pair_loop_ok)
  have "length out1 = length out"
    using row by (rule pair_loop_length)
  with Suc.IH [of "s + int i + m" out1] rest eq b show ?case
    by (simp add: rows_fit_Suc)
qed

lemma row_loop_no_pairs: "row_loop sc T sh 0 m h s d out = Inr out"
  by (induction h arbitrary: s d) simp_all

lemma refresh_box_fits:
  assumes "box_fits sh pitch (length out) b"
  shows "\<exists>out'. refresh_box sc T sh pitch b out = Inr out'"
  using assms
  by (auto simp add: box_fits_def refresh_box_def Let_def row_loop_no_pairs intro: row_loop_fits)

lemma refresh_box_Inr_fits:
  assumes "refresh_box sc T sh pitch b out = Inr out'"
  shows "box_fits sh pitch (length out) b"
  using assms
  by (auto simp add: box_fits_def refresh_box_def Let_def split: if_splits
      dest: row_loop_Inr_fits)

lemma refresh_boxes_fits:
  assumes "\<forall>b \<in> set bs. box_fits sh pitch (length out) b"
  shows "\<exists>out'. refresh_boxes sc T sh pitch bs out = Inr out'"
  using assms
proof (induction bs arbitrary: out)
  case Nil
  then show ?case by simp
next
  case (Cons b bs)
  from Cons.prems obtain out1 where first: "refresh_box sc T sh pitch b out = Inr out1"
    using refresh_box_fits [where sc = sc and T = T and sh = sh and pitch = pitch and out = out and b = b]
    by auto
  then have "length out1 = length out"
    by (rule refresh_box_length)
  with Cons.prems have "\<forall>b \<in> set bs. box_fits sh pitch (length out1) b"
    by simp
  from Cons.IH [OF this] first show ?case by simp
qed

lemma refresh_boxes_Inr_fits:
  assumes "refresh_boxes sc T sh pitch bs out = Inr out'"
  shows "\<forall>b \<in> set bs. box_fits sh pitch (length out) b"
  using assms
proof (induction bs arbitrary: out)
  case Nil
  then show ?case by simp
next
  case (Cons b bs)
  from Cons.prems obtain out1
    where first: "refresh_box sc T sh pitch b out = Inr out1"
      and rest: "refresh_boxes sc T sh pitch bs out1 = Inr out'"
    by (auto split: sum.splits)
  have "length out1 = length out"
    using first by (rule refresh_box_length)
  with Cons.IH [OF rest] refresh_box_Inr_fits [OF first] show ?case
    by simp
qed

lemma refresh_again:
  assumes "CUBERefreshArea sc T pCube boxes = Inr pCube'"
  shows "CUBERefreshArea sc T pCube' boxes = Inr pCube'"
proof (cases "Blanked pCube")
  case True
  with assms show ?thesis by (simp add: CUBERefreshArea_def)
next
  case False
  with assms obtain out'
    where run: "refresh_boxes sc T (ShadowPtr pCube) (ShadowPitch pCube) boxes (mapped_mem pCube) = Inr out'"
      and st: "pCube' = pCube\<lparr>mapped_mem := out'\<rparr>"
    by (auto simp add: CUBERefreshArea_def split: sum.splits)
  from refresh_boxes_twice [OF run] False show ?thesis
    by (simp add: CUBERefreshArea_def st)
qed

lemma refresh_returns_iff:
  assumes "\<not> Blanked pCube"
  shows "(\<exists>pCube'. CUBERefreshArea sc T pCube boxes = Inr pCube') \<longleftrightarrow>
         (\<forall>b \<in> set boxes. box_fits (ShadowPtr pCube) (ShadowPitch pCube) (length (mapped_mem pCube)) b)"
proof
  assume "\<exists>pCube'. CUBERefreshArea sc T pCube boxes = Inr pCube'"
  with assms obtain out'
    where "refresh_boxes sc T (ShadowPtr pCube) (ShadowPitch pCube) boxes (mapped_mem pCube) = Inr out'"
    by (auto simp add: CUBERefreshArea_def split: sum.splits)
  then show "\<forall>b \<in> set boxes. box_fits (ShadowPtr pCube) (ShadowPitch pCube) (length (mapped_mem pCube)) b"
    by (rule refresh_boxes_Inr_fits)
next
  assume "\<forall>b \<in> set boxes. box_fits (ShadowPtr pCube) (ShadowPitch pCube) (length (mapped_mem pCube)) b"
  from refresh_boxes_fits [OF this]
  obtain out' where "refresh_boxes sc T (ShadowPtr pCube) (ShadowPitch pCube) boxes (mapped_mem pCube) = Inr out'"
    by blast
  then show "\<exists>pCube'. CUBERefreshArea sc T pCube boxes = Inr pCube'"
    by (simp add: CUBERefreshArea_def)
qed


text \<open>
  On a 640-wide surface the boxes inside the screen fit, except those that reach the
  last row with a rounded left edge and a rounded right edge that add up to more
  than a row.
\<close>

lemma int_clear_bit0: "(k :: int) AND NOT 1 = 2 * (k div 2)"
  using unset_bit_eq_and_not [of 0 k] by (simp add: unset_bit_0)

lemma word_clear_bit0: "(word_of_int k :: u32) AND NOT 1 = word_of_int (2 * (k div 2))"
proof -
  have "(word_of_int k :: u32) AND NOT 1 = word_of_int (k AND NOT 1)"
    by (simp add: of_int_and_eq of_int_not_eq)
  then show ?thesis
    by (simp only: int_clear_bit0)
qed

lemma uint_small: "0 \<le> k \<Longrightarrow> k < 2 ^ 32 \<Longrightarrow> uint (word_of_int k :: u32) = k"
  by (simp add: uint_word_of_int)

lemma sint_small: "- (2 ^ 31) \<le> k \<Longrightarrow> k < 2 ^ 31 \<Longrightarrow> sint (word_of_int k :: u32) = k"
  by (simp add: sint_sbintrunc' signed_take_bit_int_eq_self)

lemma short_range: "- 32768 \<le> sint (w :: s16) \<and> sint w < 32768"
  using sint_greater_eq [of w] sint_less [of w] by simp


lemma sdiv_nonneg: "0 \<le> k \<Longrightarrow> 0 < l \<Longrightarrow> k sdiv l = k div (l :: int)"
  by (cases "k = 0") (simp_all add: signed_divide_int_def)

lemma on_screen_fits:
  assumes "on_screen h b" and "640 * h \<le> int (length sh)" and "320 * h \<le> int len"
  shows "box_fits sh 1280 len b"
proof -
  define a c p q where "a = sint (x1 b)" and "c = sint (x2 b)" and "p = sint (y1 b)" and "q = sint (y2 b)"
  define a' w' where "a' = a div 2" and "w' = (c + 1) div 2"
  from assms(1) have rng: "0 \<le> a" "a \<le> c" "c \<le> 640" "0 \<le> p" "p \<le> q" "q \<le> h"
    and edge: "q < h \<or> a' + w' \<le> 320"
    by (simp_all add: on_screen_def a_def c_def p_def q_def a'_def w'_def)
  have q: "q < 32768"
    using short_range [of "y2 b"] by (simp add: q_def)
  from rng have half: "0 \<le> a'" "a' \<le> 320" "0 \<le> w'" "w' \<le> 320"
    by (simp_all add: a'_def w'_def)
  have sx1: "(scast (x1 b) :: u32) = word_of_int a" and sx2: "(scast (x2 b) :: u32) = word_of_int c"
    and sy1: "(scast (y1 b) :: u32) = word_of_int p" and sy2: "(scast (y2 b) :: u32) = word_of_int q"
    unfolding a_def c_def p_def q_def by (rule scast_eq)+
  have left: "(scast (x1 b) :: u32) AND NOT 1 = word_of_int (2 * a')"
    unfolding sx1 a'_def by (rule word_clear_bit0)
  have "(scast (x2 b) :: u32) + 1 = word_of_int (c + 1)"
    unfolding sx2 by simp
  then have width: "((scast (x2 b) :: u32) + 1) AND NOT 1 = word_of_int (2 * w')"
    unfolding w'_def by (simp only: word_clear_bit0)
  have height: "(scast (y2 b) :: u32) - scast (y1 b) = word_of_int (q - p)"
    unfolding sy1 sy2 by simp
  have off: "(scast (y1 b) :: u32) * 1280 + word_of_int (2 * a') * 2 = word_of_int (1280 * p + 4 * a')"
    unfolding sy1 by simp
  have modb: "(1280 :: u32) - word_of_int (2 * w') * 2 = word_of_int (1280 - 4 * w')"
    by simp
  have v_height: "sint (word_of_int (q - p) :: u32) = q - p"
    using rng q by (intro sint_small) simp_all
  have v_width: "sint (word_of_int (2 * w') :: u32) = 2 * w'"
    using half by (intro sint_small) simp_all
  have v_off: "uint (word_of_int (1280 * p + 4 * a') :: u32) = 1280 * p + 4 * a'"
    using rng q half by (intro uint_small) simp_all
  have v_mod: "sint (word_of_int (1280 - 4 * w') :: u32) = 1280 - 4 * w'"
    using half by (intro sint_small) simp_all
  have i: "(2 * w') sdiv 2 = w'"
    using half by (simp add: sdiv_nonneg)
  have m: "(1280 - 4 * w') sdiv 4 = 320 - w'"
    using half by (simp add: sdiv_nonneg)
  have s: "(1280 * p + 4 * a') div 4 = 320 * p + a'"
    by simp
  have al: "4 dvd 1280 * p + 4 * a'"
    by simp
  have rows: "rows_fit sh len (nat w') (320 - w') (nat (q - p)) (320 * p + a')"
    if "0 < w'"
    unfolding rows_fit_def
  proof
    fix r assume "r \<in> {0..<nat (q - p)}"
    then have r: "int r < q - p" by simp
    have stride: "int (nat w') + (320 - w') = 320"
      using half by simp
    have "320 * p + a' + int r * 320 + w' \<le> 320 * h"
      using edge r rng half by auto
    with assms(2,3) rng half show "0 \<le> 320 * p + a' + int r * (int (nat w') + (320 - w')) \<and>
        2 * (320 * p + a' + int r * (int (nat w') + (320 - w')) + int (nat w')) \<le> int (length sh) \<and>
        320 * p + a' + int r * (int (nat w') + (320 - w')) + int (nat w') \<le> int len"
      unfolding stride by simp
  qed
  show ?thesis
    unfolding box_fits_def Let_def left width height off modb v_height v_width v_off v_mod i m s
    using rng half al rows by auto
qed

lemma full_screen_box: "on_screen 480 \<lparr> x1 = 0, y1 = 0, x2 = 640, y2 = 480 \<rparr>"
  by (simp add: on_screen_def)

lemma scenario_box_on_screen: "on_screen 480 \<lparr> x1 = 3, y1 = 10, x2 = 9, y2 = 12 \<rparr>"
  by (simp add: on_screen_def)

lemma refresh_on_screen_idempotent:
  assumes "ShadowPitch pCube = 1280"
    and "640 * h \<le> int (length (ShadowPtr pCube))" and "320 * h \<le> int (length (mapped_mem pCube))"
    and "\<forall>b \<in> set boxes. on_screen h b"
  shows "\<exists>pCube'. CUBERefreshArea sc T pCube boxes = Inr pCube' \<and>
                   CUBERefreshArea sc T pCube' boxes = Inr pCube'"
proof -
  have "\<forall>b \<in> set boxes. box_fits (ShadowPtr pCube) (ShadowPitch pCube) (length (mapped_mem pCube)) b"
    using assms by (auto intro: on_screen_fits)
  from refresh_boxes_fits [OF this]
  obtain out' where "refresh_boxes sc T (ShadowPtr pCube) (ShadowPitch pCube) boxes (mapped_mem pCube) = Inr out'"
    by blast
  then obtain pCube' where first: "CUBERefreshArea sc T pCube boxes = Inr pCube'"
    by (cases "Blanked pCube") (simp_all add: CUBERefreshArea_def)
  from first refresh_again [OF first] show ?thesis by blast
qed









text \<open>
  A box that does not fit makes the loops leave a surface: the only fault the loops
  raise is \<open>OutOfBounds\<close>.
\<close>

lemma pair_loop_Inl: "pair_loop sc T sh n s d out = Inl e \<Longrightarrow> e = OutOfBounds"
  by (induction n arbitrary: s d out) (auto split: if_splits)

lemma row_loop_Inl: "row_loop sc T sh n m h s d out = Inl e \<Longrightarrow> e = OutOfBounds"
proof (induction h arbitrary: s d out)
  case 0
  then show ?case by simp
next
  case (Suc h)
  then show ?case
    by (auto split: sum.splits dest: pair_loop_Inl)
qed




lemma row_below_surface_arith:
  "refresh_box sc T sh 1280 \<lparr> x1 = 0, y1 = 480, x2 = 640, y2 = 481 \<rparr> out =
     row_loop sc T sh 320 0 1 153600 153600 out"
  by (simp add: refresh_box_def Let_def signed_divide_int_def)

lemma row_below_surface_overrun:
  assumes "length sh = 307200"
  shows "refresh_box sc T sh 1280 \<lparr> x1 = 0, y1 = 480, x2 = 640, y2 = 481 \<rparr> out = Inl OutOfBounds"
proof (cases "row_loop sc T sh 320 0 1 153600 153600 out")
  case (Inl e)
  with row_loop_Inl [OF Inl] show ?thesis by (simp add: row_below_surface_arith)
next
  case (Inr out')
  from row_loop_Inr_fits [OF Inr] assms show ?thesis
    by (simp add: rows_fit_def)
qed



text \<open>
  Claim C8. While \<open>Blanked\<close> is set, \<open>CUBERefreshArea\<close> returns the driver state
  as it received it, whatever boxes it is given: the output surface and every other
  field are unchanged.
\<close>

theorem blanked_refresh_noop:
  assumes "Blanked pCube"
  shows "CUBERefreshArea sc T pCube boxes = Inr pCube"
  using assms by (simp add: CUBERefreshArea_def)

theorem blanked_refresh_noop_witness:
  "CUBERefreshArea False (initRGB2YUVTables zero_tables)
     \<lparr> ShadowPtr = [0, 0, 0, 0, 0, 0, 0, 0], ShadowPitch = 8, Blanked = True,
       mapped_mem = [1, 2, 3, 4] \<rparr>
     [\<lparr> x1 = 0, y1 = 1, x2 = 2, y2 = 2 \<rparr>] =
   Inr \<lparr> ShadowPtr = [0, 0, 0, 0, 0, 0, 0, 0], ShadowPitch = 8, Blanked = True,
         mapped_mem = [1, 2, 3, 4] \<rparr>"
  using blanked_refresh_noop [of "\<lparr> ShadowPtr = [0, 0, 0, 0, 0, 0, 0, 0], ShadowPitch = 8,
    Blanked = True, mapped_mem = [1, 2, 3, 4] \<rparr>" False "initRGB2YUVTables zero_tables"
    "[\<lparr> x1 = 0, y1 = 1, x2 = 2, y2 = 2 \<rparr>]"]
  by simp


section \<open>The alignment scenario\<close>

text \<open>
  The box \<open>{x1 = 3, y1 = 10, x2 = 9, y2 = 12}\<close> on a 640-wide surface (1280 bytes a
  row, 320 words a row). \<open>left\<close> is \<open>2\<close> and \<open>width\<close> is \<open>(9 + 1) & ~1 = 10\<close>: the
  right edge, rounded, is taken for the width. Each of the two rows therefore
  converts \<open>10 / 2 = 5\<close> words from word \<open>1\<close> of the row on.
\<close>

lemma scenario_box_arith:
  "refresh_box sc T sh 1280 \<lparr>x1 = 3, y1 = 10, x2 = 9, y2 = 12\<rparr> out =
     row_loop sc T sh 5 315 2 3201 3201 out"
  by (simp add: refresh_box_def Let_def signed_divide_int_def)

lemma scenario_box_refresh:
  assumes "7052 \<le> length sh" and "3526 \<le> length out"
  shows "refresh_box sc T sh 1280 \<lparr>x1 = 3, y1 = 10, x2 = 9, y2 = 12\<rparr> out =
     Inr (out[3201 := macropixel sc T sh 3201, 3202 := macropixel sc T sh 3202,
              3203 := macropixel sc T sh 3203, 3204 := macropixel sc T sh 3204,
              3205 := macropixel sc T sh 3205,
              3521 := macropixel sc T sh 3521, 3522 := macropixel sc T sh 3522,
              3523 := macropixel sc T sh 3523, 3524 := macropixel sc T sh 3524,
              3525 := macropixel sc T sh 3525])"
  using assms by (simp add: scenario_box_arith eval_nat_numeral)


text \<open>
  Claim C6 fails on the code. On a 640 by 480 surface, black in the shadow and zero
  in the output, the box \<open>{x1 = 3, y1 = 10, x2 = 9, y2 = 12}\<close> converts five words in
  each of the rows 10 and 11: words \<open>3201 .. 3205\<close> and \<open>3521 .. 3525\<close>, that is the
  columns 2 to 11. Word \<open>3205 = 10 * 320 + 5\<close> holds the columns 10 and 11 of row 10,
  which lie outside the columns 2 to 9 of the claim.
\<close>

theorem refresh_overshoots_right_edge:
  "CUBERefreshArea False (initRGB2YUVTables zero_tables)
     \<lparr> ShadowPtr = replicate 307200 0, ShadowPitch = 1280, Blanked = False,
       mapped_mem = replicate 153600 0 \<rparr>
     [\<lparr> x1 = 3, y1 = 10, x2 = 9, y2 = 12 \<rparr>] =
   Inr \<lparr> ShadowPtr = replicate 307200 0, ShadowPitch = 1280, Blanked = False,
         mapped_mem = (replicate 153600 0)
           [3201 := 0x00800080, 3202 := 0x00800080, 3203 := 0x00800080, 3204 := 0x00800080,
            3205 := 0x00800080,
            3521 := 0x00800080, 3522 := 0x00800080, 3523 := 0x00800080, 3524 := 0x00800080,
            3525 := 0x00800080] \<rparr>"
  by (simp add: CUBERefreshArea_def scenario_box_refresh macropixel_def rgbrgb16toyuy2_def)

section \<open>Blanking and unblanking\<close>

text \<open>With a row stride of zero extra words the rows follow each other without a gap.\<close>

lemma row_loop_contiguous:
  assumes "0 \<le> s" and "2 * (s + int (n * h)) \<le> int (length sh)"
    and "s + int (n * h) \<le> int (length out)"
  shows "row_loop sc T sh n 0 h s s out = Inr (override (span (macropixel sc T sh) (n * h) s s) out)"
  using assms
proof (induction h arbitrary: s out)
  case 0
  then show ?case by simp
next
  case (Suc h)
  have nonneg: "0 \<le> int n * int h"
    by simp
  from Suc.prems have sh: "2 * (s + int n) + 2 * (int n * int h) \<le> int (length sh)"
    and out: "s + int n + int n * int h \<le> int (length out)"
    by (simp_all add: algebra_simps)
  have row: "pair_loop sc T sh n s s out =
               Inr (s + int n, s + int n, override (span (macropixel sc T sh) n s s) out)"
    using Suc.prems(1) nonneg sh out by (intro pair_loop_ok) linarith+
  have "row_loop sc T sh n 0 h (s + int n) (s + int n) (override (span (macropixel sc T sh) n s s) out) =
          Inr (override (span (macropixel sc T sh) (n * h) (s + int n) (s + int n))
                 (override (span (macropixel sc T sh) n s s) out))"
    using Suc.prems(1) sh out by (intro Suc.IH) simp_all
  with row show ?case
    by (simp add: override_override span_append)
qed

lemma short_of_VDisplay:
  assumes "0 \<le> h" and "h < 32768"
  shows "sint ((scast (word_of_int h :: s16) :: u32) - scast (0 :: s16)) = h"
proof -
  have "sint (word_of_int h :: s16) = h"
    using assms by (simp add: sint_sbintrunc' signed_take_bit_int_eq_self)
  moreover have "sint (scast (word_of_int h :: s16) :: u32) = sint (word_of_int h :: s16)"
    by (rule sint_up_scast) (simp add: is_up)
  ultimately show ?thesis by simp
qed

lemma full_box_arith:
  assumes "0 < h" and "h < 32768"
  shows "refresh_box sc T sh 1280 \<lparr>x1 = 0, y1 = 0, x2 = 640, y2 = word_of_int h\<rparr> out =
           row_loop sc T sh 320 0 (nat h) 0 0 out"
  using assms short_of_VDisplay [of h]
  by (simp add: refresh_box_def Let_def signed_divide_int_def)

lemma full_box_empty:
  "refresh_box sc T sh 1280 \<lparr>x1 = 0, y1 = 0, x2 = 640, y2 = 0\<rparr> out = Inr out"
  by (simp add: refresh_box_def Let_def)

text \<open>A full-area refresh of a 640-wide surface converts the first \<open>320 * VDisplay\<close> words.\<close>

lemma full_box_refresh:
  assumes "0 \<le> h" and "h < 32768"
    and "640 * h \<le> int (length sh)" and "320 * h \<le> int (length out)"
  shows "refresh_box sc T sh 1280 \<lparr>x1 = 0, y1 = 0, x2 = 640, y2 = word_of_int h\<rparr> out =
           Inr (override (span (macropixel sc T sh) (nat (320 * h)) 0 0) out)"
proof (cases "h = 0")
  case True
  then show ?thesis by (simp add: full_box_empty)
next
  case False
  with assms(1) have pos: "0 < h" by simp
  have "int (320 * nat h) = 320 * h"
    using assms(1) by simp
  then have "row_loop sc T sh 320 0 (nat h) 0 0 out =
          Inr (override (span (macropixel sc T sh) (320 * nat h) 0 0) out)"
    using assms by (intro row_loop_contiguous) simp_all
  moreover have "nat (320 * h) = 320 * nat h"
    using assms(1) by (simp add: nat_mult_distrib)
  ultimately show ?thesis
    using pos assms(2) by (simp add: full_box_arith)
qed

lemma refresh_all_result:
  assumes "ShadowPitch pCube = 1280" and "\<not> Blanked pCube"
    and "0 \<le> h" and "h < 32768"
    and "640 * h \<le> int (length (ShadowPtr pCube))" and "320 * h \<le> int (length (mapped_mem pCube))"
  shows "CUBERefreshAll sc T h pCube =
           Inr (pCube\<lparr>mapped_mem :=
                  override (span (macropixel sc T (ShadowPtr pCube)) (nat (320 * h)) 0 0)
                    (mapped_mem pCube)\<rparr>)"
  using assms by (simp add: CUBERefreshAll_def CUBERefreshArea_def full_box_refresh)

lemma blank_unblank_result:
  assumes "ShadowPitch pCube = 1280"
    and "0 \<le> h" and "h < 32768"
    and "640 * h \<le> int (length (ShadowPtr pCube))" and "320 * h \<le> int (length (mapped_mem pCube))"
  shows "blank_unblank sc T h pCube =
           Inr (pCube\<lparr>Blanked := False, mapped_mem :=
                  override (span (macropixel sc T (ShadowPtr pCube)) (nat (320 * h)) 0 0)
                    (replicate (length (mapped_mem pCube)) 0)\<rparr>)"
  using assms by (simp add: blank_unblank_def CUBESaveScreen_def refresh_all_result)


text \<open>
  Claim C9, as the code has it. On a 640-wide surface, take an Active state whose
  output surface is in step with the shadow surface: each of the first
  \<open>320 * VDisplay\<close> words is the conversion of its two shadow pixels and every word
  after them is zero. Then blanking followed by unblanking, with the shadow surface
  untouched in between, returns exactly that state.
\<close>

theorem blank_roundtrip_in_sync:
  assumes "ShadowPitch pCube = 1280" and "\<not> Blanked pCube"
    and "0 \<le> h" and "h < 32768"
    and "640 * h \<le> int (length (ShadowPtr pCube))" and "320 * h \<le> int (length (mapped_mem pCube))"
    and "\<forall>j < length (mapped_mem pCube).
           mapped_mem pCube ! j =
             (if int j < 320 * h then macropixel sc T (ShadowPtr pCube) (int j) else 0)"
  shows "blank_unblank sc T h pCube = Inr pCube"
proof -
  have "override (span (macropixel sc T (ShadowPtr pCube)) (nat (320 * h)) 0 0)
          (replicate (length (mapped_mem pCube)) 0) = mapped_mem pCube"
    using assms(3,7) by (auto simp add: list_eq_iff_nth_eq nth_override span_def)
  with assms(2) show ?thesis
    by (simp add: blank_unblank_result [OF assms(1,3,4,5,6)])
qed

lemma black_frame:
  "override (span (macropixel sc T (replicate 307200 0)) 153600 0 0) (replicate 153600 c) =
     replicate 153600 0x00800080"
  by (simp add: list_eq_iff_nth_eq nth_override span_def macropixel_def rgbrgb16toyuy2_def)


text \<open>
  Claim C9 as stated fails for an Active state whose output surface is not in step
  with the shadow surface, such as the one \<open>CUBEModeInit\<close> leaves (output surface
  zero-filled, \<open>Blanked\<close> cleared) with a black shadow surface: after blanking and
  unblanking every word of the output surface is \<open>0x00800080\<close>, not zero.
\<close>

theorem blank_roundtrip_after_mode_init:
  "blank_unblank False (initRGB2YUVTables zero_tables) 480
     \<lparr> ShadowPtr = replicate 307200 0, ShadowPitch = 1280, Blanked = False,
       mapped_mem = replicate 153600 0 \<rparr> =
   Inr \<lparr> ShadowPtr = replicate 307200 0, ShadowPitch = 1280, Blanked = False,
         mapped_mem = replicate 153600 0x00800080 \<rparr> \<and>
   \<lparr> ShadowPtr = replicate 307200 0, ShadowPitch = 1280, Blanked = False,
     mapped_mem = replicate 153600 (0x00800080 :: u32) \<rparr> \<noteq>
   \<lparr> ShadowPtr = replicate 307200 0, ShadowPitch = 1280, Blanked = False,
     mapped_mem = replicate 153600 0 \<rparr>"
  by (simp add: blank_unblank_result black_frame)


theorem blank_roundtrip_in_sync_witness:
  "blank_unblank False (initRGB2YUVTables zero_tables) 480
     \<lparr> ShadowPtr = replicate 307200 0, ShadowPitch = 1280, Blanked = False,
       mapped_mem = replicate 153600 0x00800080 \<rparr> =
   Inr \<lparr> ShadowPtr = replicate 307200 0, ShadowPitch = 1280, Blanked = False,
         mapped_mem = replicate 153600 0x00800080 \<rparr>"
  using blank_roundtrip_in_sync [of "\<lparr> ShadowPtr = replicate 307200 0, ShadowPitch = 1280,
    Blanked = False, mapped_mem = replicate 153600 0x00800080 \<rparr>" 480 False
    "initRGB2YUVTables zero_tables"]
  by (simp add: macropixel_def rgbrgb16toyuy2_def)

end
